theory Spec2Isabelle
  imports Main "HOL-Library.Word"
begin

unbundle bit_operations_syntax

section \<open>Tagged values (runtime.h, lines 9-41)\<close>

text \<open>
  A value is a \<open>void *\<close> on a 64-bit target: a 64-bit word. \<open>int64_t\<close> is a 64-bit
  word read in two's complement (\<open>sint\<close>), \<open>char\<close> an 8-bit word. The shifts are the
  machine's: \<open>i << 3\<close> on \<open>int64_t\<close> keeps the low 64 bits of the product
  (\<open>push_bit\<close> on words), \<open>(int64_t)val >> 3\<close> is the arithmetic shift
  (\<open>signed_drop_bit\<close>), and \<open>>> 3\<close> on \<open>uint64_t\<close> the logical one (\<open>drop_bit\<close>).
  ISO C leaves \<open>i << 3\<close> undefined when \<open>i\<close> is negative or the product does not
  fit; the model is the shift instruction that compilers for two's complement
  targets emit for it.
\<close>

type_synonym val = "64 word"

definition TAG_MASK :: val where "TAG_MASK = 7"
definition INT_TAG :: val where "INT_TAG = 1"
definition BOOL_TAG :: val where "BOOL_TAG = 2"
definition CHAR_TAG :: val where "CHAR_TAG = 3"
definition NULL_VAL :: val where "NULL_VAL = 0x14"

definition FALSE_VAL :: val where "FALSE_VAL = BOOL_TAG"
definition TRUE_VAL :: val where "TRUE_VAL = 6"

definition int_to_val :: "64 word \<Rightarrow> val" where
  "int_to_val i = push_bit 3 i OR INT_TAG"

definition val_to_int :: "val \<Rightarrow> 64 word" where
  "val_to_int v = signed_drop_bit 3 v"

text \<open>
  Whether plain \<open>char\<close> is signed is left to the implementation, so the conversion
  \<open>(uint64_t)c\<close> either sign-extends or zero-extends; \<open>char_signed\<close> says which.
  Converting back to \<open>char\<close> keeps the low 8 bits.
\<close>

definition char_to_val :: "bool \<Rightarrow> 8 word \<Rightarrow> val" where
  "char_to_val char_signed c =
     push_bit 3 (if char_signed then scast c else ucast c) OR CHAR_TAG"

definition val_to_char :: "val \<Rightarrow> 8 word" where
  "val_to_char v = ucast (drop_bit 3 v)"

definition is_int :: "val \<Rightarrow> bool" where
  "is_int v \<longleftrightarrow> v AND TAG_MASK = INT_TAG"

definition is_bool :: "val \<Rightarrow> bool" where
  "is_bool v \<longleftrightarrow> v AND TAG_MASK = BOOL_TAG"

definition is_char :: "val \<Rightarrow> bool" where
  "is_char v \<longleftrightarrow> v AND TAG_MASK = CHAR_TAG"

definition is_heap_ptr :: "val \<Rightarrow> bool" where
  "is_heap_ptr v \<longleftrightarrow> v AND TAG_MASK = 0"


section \<open>Heap objects (runtime.h, lines 43-60)\<close>

definition TYPE_DOUBLE_TAG :: "8 word" where "TYPE_DOUBLE_TAG = 0"
definition TYPE_STRING_TAG :: "8 word" where "TYPE_STRING_TAG = 1"
definition TYPE_PAIR_TAG :: "8 word" where "TYPE_PAIR_TAG = 2"
definition TYPE_SYMBOL_TAG :: "8 word" where "TYPE_SYMBOL_TAG = 3"

text \<open>
  A \<open>double\<close> is kept as its 64 bits. The anonymous union of \<open>HeapObject\<close> is the
  member that was stored last; reading another member is treated as undefined by the
  printer below. A \<open>char *\<close> is an address into the memory's table of character
  buffers.
\<close>

type_synonym double = "64 word"

datatype payload =
    As_double double
  | As_string val
  | As_pair (car: val) (cdr: val)
  | As_symbol val

record HeapObject =
  tag :: "8 word"
  payload :: payload

record memory =
  objs :: "val \<rightharpoonup> HeapObject"
  bufs :: "val \<rightharpoonup> string"

datatype error = Undefined | OutOfFuel

text \<open>
  The text a \<open>char *\<close> denotes ends before the first NUL of its buffer: this is what
  \<open>strdup\<close> copies and what \<open>%s\<close> prints.
\<close>

definition c_str :: "string \<Rightarrow> string" where
  "c_str s = takeWhile (\<lambda>c. c \<noteq> CHR 0x00) s"

section \<open>Boxed constructors (runtime.h, lines 62-90)\<close>

text \<open>
  \<open>malloc\<close> and \<open>strdup\<close> belong to the C library. The address each call returns
  is a parameter of the constructor: \<open>p\<close> for \<open>malloc\<close>, \<open>q\<close> for \<open>strdup\<close>, with
  0 for a failed allocation. The constructors do not check \<open>p\<close>, so the store through
  a null \<open>obj\<close> is \<open>Undefined\<close>; a null result of \<open>strdup\<close> is stored as it is.
\<close>

definition strdup :: "val \<Rightarrow> string \<Rightarrow> memory \<Rightarrow> memory" where
  "strdup q s m = (if q = 0 then m else m\<lparr>bufs := (bufs m)(q \<mapsto> c_str s)\<rparr>)"

definition box_double :: "val \<Rightarrow> double \<Rightarrow> memory \<Rightarrow> error + val \<times> memory" where
  "box_double p f m =
     (if p = 0 then Inl Undefined
      else Inr (p, m\<lparr>objs := (objs m)(p \<mapsto> \<lparr>tag = TYPE_DOUBLE_TAG, payload = As_double f\<rparr>)\<rparr>))"

definition box_string :: "val \<Rightarrow> val \<Rightarrow> string \<Rightarrow> memory \<Rightarrow> error + val \<times> memory" where
  "box_string p q s m =
     (if p = 0 then Inl Undefined
      else let m' = strdup q s m
           in Inr (p, m'\<lparr>objs := (objs m')(p \<mapsto> \<lparr>tag = TYPE_STRING_TAG, payload = As_string q\<rparr>)\<rparr>))"

definition cons :: "val \<Rightarrow> val \<Rightarrow> val \<Rightarrow> memory \<Rightarrow> error + val \<times> memory" where
  "cons p a b m =
     (if p = 0 then Inl Undefined
      else Inr (p, m\<lparr>objs := (objs m)(p \<mapsto> \<lparr>tag = TYPE_PAIR_TAG, payload = As_pair a b\<rparr>)\<rparr>))"

definition box_symbol :: "val \<Rightarrow> val \<Rightarrow> string \<Rightarrow> memory \<Rightarrow> error + val \<times> memory" where
  "box_symbol p q s m =
     (if p = 0 then Inl Undefined
      else let m' = strdup q s m
           in Inr (p, m'\<lparr>objs := (objs m')(p \<mapsto> \<lparr>tag = TYPE_SYMBOL_TAG, payload = As_symbol q\<rparr>)\<rparr>))"

section \<open>The printer (runtime.h, lines 92-126)\<close>

text \<open>
  The conversions of \<open>printf\<close>: \<open>%lld\<close> writes a signed decimal numeral, \<open>%c\<close> the
  byte, \<open>%s\<close> the text of a buffer. What \<open>%f\<close> writes for a \<open>double\<close> is a parameter
  \<open>fmt\<close> of the printer.
\<close>

fun dec_digits :: "nat \<Rightarrow> string" where
  "dec_digits n =
     (if n < 10 then [char_of (48 + n)]
      else dec_digits (n div 10) @ [char_of (48 + n mod 10)])"

declare dec_digits.simps [simp del]

definition printf_lld :: "64 word \<Rightarrow> string" where
  "printf_lld i =
     (if sint i < 0 then CHR ''-'' # dec_digits (nat (- sint i)) else dec_digits (nat (sint i)))"

definition printf_c :: "8 word \<Rightarrow> string" where
  "printf_c c = [char_of (unat c)]"

definition printf_s :: "memory \<Rightarrow> val \<Rightarrow> error + string" where
  "printf_s m q = (case bufs m q of None \<Rightarrow> Inl Undefined | Some s \<Rightarrow> Inr (c_str s))"

text \<open>
  \<open>print_value\<close> returns the text it writes to the standard output. The recursion
  through pairs is bounded by a fuel argument, one unit for each nested call;
  \<open>OutOfFuel\<close> stands for a call that has not returned within it. Reading an address
  that holds no object or no buffer, and reading a union member other than the one
  stored, are \<open>Undefined\<close>.
\<close>

fun print_value :: "(double \<Rightarrow> string) \<Rightarrow> memory \<Rightarrow> nat \<Rightarrow> val \<Rightarrow> error + string" where
  "print_value fmt m 0 v = Inl OutOfFuel"
| "print_value fmt m (Suc n) v =
     (if v = NULL_VAL then Inr ''null''
      else if is_int v then Inr (printf_lld (val_to_int v))
      else if is_bool v then Inr (if v = TRUE_VAL then ''#t'' else ''#f'')
      else if is_char v then Inr ([CHR ''#'', CHR 0x5C] @ printf_c (val_to_char v))
      else if is_heap_ptr v then
        (case objs m v of
           None \<Rightarrow> Inl Undefined
         | Some obj \<Rightarrow>
             if tag obj = TYPE_DOUBLE_TAG then
               (case payload obj of As_double d \<Rightarrow> Inr (fmt d) | _ \<Rightarrow> Inl Undefined)
             else if tag obj = TYPE_STRING_TAG then
               (case payload obj of
                  As_string q \<Rightarrow>
                    (case printf_s m q of
                       Inl e \<Rightarrow> Inl e
                     | Inr s \<Rightarrow> Inr ([CHR 0x22] @ s @ [CHR 0x22]))
                | _ \<Rightarrow> Inl Undefined)
             else if tag obj = TYPE_PAIR_TAG then
               (case payload obj of
                  As_pair a b \<Rightarrow>
                    (case print_value fmt m n a of
                       Inl e \<Rightarrow> Inl e
                     | Inr sa \<Rightarrow>
                         (case print_value fmt m n b of
                            Inl e \<Rightarrow> Inl e
                          | Inr sb \<Rightarrow> Inr (''('' @ sa @ '' . '' @ sb @ '')'')))
                | _ \<Rightarrow> Inl Undefined)
             else if tag obj = TYPE_SYMBOL_TAG then
               (case payload obj of
                  As_symbol q \<Rightarrow>
                    (case printf_s m q of
                       Inl e \<Rightarrow> Inl e
                     | Inr s \<Rightarrow> Inr ([CHR 0x27] @ s @ [CHR 0x27]))
                | _ \<Rightarrow> Inl Undefined)
             else Inr ''<unknown>'')
      else Inr ''<badval>'')"

declare print_value.simps [simp del]

section \<open>Fixtures of the examples\<close>

text \<open>
  The examples start from a memory holding nothing. None of them prints a \<open>double\<close>,
  so they take a \<open>%f\<close> that writes nothing.
\<close>

definition empty_memory :: memory where
  "empty_memory = \<lparr>objs = Map.empty, bufs = Map.empty\<rparr>"

definition fmt_none :: "double \<Rightarrow> string" where
  "fmt_none d = []"

section \<open>Properties of the codec\<close>

lemma and_7_eq_take_bit: "(v :: 64 word) AND 7 = take_bit 3 v"
proof -
  have "(7 :: 64 word) = mask 3"
    by (simp add: mask_eq_exp_minus_1)
  then show ?thesis
    by (simp add: take_bit_eq_mask)
qed

lemma tag_int_to_val: "int_to_val i AND TAG_MASK = INT_TAG"
  unfolding int_to_val_def INT_TAG_def TAG_MASK_def and_7_eq_take_bit
  by (rule bit_word_eqI) (auto simp add: bit_simps)

lemma tag_char_to_val: "char_to_val sg c AND TAG_MASK = CHAR_TAG"
  unfolding char_to_val_def CHAR_TAG_def TAG_MASK_def and_7_eq_take_bit
  by (rule bit_word_eqI) (auto simp add: bit_simps)

lemma val_to_int_int_to_val: "val_to_int (int_to_val i) = signed_take_bit 60 i"
  unfolding val_to_int_def int_to_val_def INT_TAG_def
  by (rule bit_word_eqI) (auto simp add: bit_simps)

lemma sint_signed_take_bit_60:
  "sint (signed_take_bit 60 (i :: 64 word)) = signed_take_bit 60 (sint i)"
  by (rule bit_eqI) (auto simp add: bit_simps bit_sint_iff bit_signed_take_bit_iff min_def)

lemma signed_take_bit_60_range:
  "- (2 ^ 60) \<le> signed_take_bit 60 (k :: int) \<and> signed_take_bit 60 k < 2 ^ 60"
  using signed_take_bit_int_greater_eq_minus_exp [of 60 k]
    signed_take_bit_int_less_exp [of 60 k] by simp

lemma signed_take_bit_60_cong:
  "(signed_take_bit 60 (k :: int) - k) mod 2 ^ 61 = 0"
proof -
  have "signed_take_bit 60 k = (k + 2 ^ 60) mod 2 ^ 61 - 2 ^ 60"
    by (simp add: signed_take_bit_eq_take_bit_shift take_bit_eq_mod)
  then have "signed_take_bit 60 k - k = (k + 2 ^ 60) mod 2 ^ 61 - (k + 2 ^ 60)"
    by simp
  also have "\<dots> mod 2 ^ 61 = 0"
    by (simp add: mod_diff_left_eq)
  finally show ?thesis .
qed

text \<open>
  C2. The claim asks that both canonical boolean handles are classified as booleans
  and are distinct. On the code, \<open>FALSE_VAL\<close> passes \<open>is_bool\<close> and the two handles
  differ, but \<open>TRUE_VAL\<close> (binary 110) does not pass \<open>is_bool\<close>, which compares all
  three tag bits with 010.
\<close>

theorem is_bool_canonical:
  "\<not> is_bool TRUE_VAL \<and> is_bool FALSE_VAL \<and> TRUE_VAL \<noteq> FALSE_VAL"
  by (simp add: is_bool_def BOOL_TAG_def TRUE_VAL_def FALSE_VAL_def TAG_MASK_def)

text \<open>
  C4. Every integer \<open>i\<close> with \<open>-2^60 \<le> i \<le> 2^60 - 1\<close>, taken as an \<open>int64_t\<close>,
  is decoded from its encoding unchanged.
\<close>

theorem int_roundtrip:
  assumes "- (2 ^ 60) \<le> i" and "i \<le> 2 ^ 60 - 1"
  shows "sint (val_to_int (int_to_val (word_of_int i))) = i"
proof -
  have "sint (word_of_int i :: 64 word) = signed_take_bit 63 i"
    by (simp add: sint_sbintrunc')
  also have "\<dots> = i"
    using assms by (simp add: signed_take_bit_int_eq_self)
  finally have w: "sint (word_of_int i :: 64 word) = i" .
  have "sint (val_to_int (int_to_val (word_of_int i))) = signed_take_bit 60 i"
    by (simp add: val_to_int_int_to_val sint_signed_take_bit_60 w)
  also have "\<dots> = i"
    using assms by (simp add: signed_take_bit_int_eq_self)
  finally show ?thesis .
qed

theorem int_roundtrip_witness:
  "- (2 ^ 60) \<le> (- 5 :: int) \<and> (- 5 :: int) \<le> 2 ^ 60 - 1
   \<and> sint (val_to_int (int_to_val (word_of_int (- 5)))) = - 5"
  using int_roundtrip [of "- 5"] by simp

text \<open>
  C5. Every 8-bit character is decoded from its encoding unchanged, whether plain
  \<open>char\<close> is signed or not, and its encoding carries the character tag.
\<close>

theorem char_roundtrip:
  "val_to_char (char_to_val sg c) = c \<and> is_char (char_to_val sg c)"
proof
  show "val_to_char (char_to_val sg c) = c"
    unfolding val_to_char_def char_to_val_def CHAR_TAG_def
    by (rule bit_word_eqI) (auto simp add: bit_simps)
  show "is_char (char_to_val sg c)"
    by (simp add: is_char_def tag_char_to_val)
qed

text \<open>
  C8. Of the four classification predicates at most one holds of any word.
\<close>

theorem classification_exclusive:
  "length (filter id [is_int v, is_bool v, is_char v, is_heap_ptr v]) \<le> 1
   \<and> \<not> (is_int v \<and> is_bool v) \<and> \<not> (is_int v \<and> is_char v)
   \<and> \<not> (is_int v \<and> is_heap_ptr v) \<and> \<not> (is_bool v \<and> is_char v)
   \<and> \<not> (is_bool v \<and> is_heap_ptr v) \<and> \<not> (is_char v \<and> is_heap_ptr v)"
  by (simp add: is_int_def is_bool_def is_char_def is_heap_ptr_def
      INT_TAG_def BOOL_TAG_def CHAR_TAG_def)

text \<open>
  C9. The null sentinel 0x14 has the tag bits 100: it is not a heap pointer, and
  neither an integer, a boolean nor a character.
\<close>

theorem NULL_VAL_reserved:
  "NULL_VAL = 0x14 \<and> NULL_VAL AND TAG_MASK = 4 \<and> \<not> is_heap_ptr NULL_VAL
   \<and> \<not> is_int NULL_VAL \<and> \<not> is_bool NULL_VAL \<and> \<not> is_char NULL_VAL"
  by (simp add: is_int_def is_bool_def is_char_def is_heap_ptr_def
      INT_TAG_def BOOL_TAG_def CHAR_TAG_def NULL_VAL_def TAG_MASK_def)

text \<open>
  C10. For every 64-bit integer \<open>i\<close>, decoding its encoding gives the sign extension
  of the low 61 bits of \<open>i\<close>: a value between \<open>-2^60\<close> and \<open>2^60 - 1\<close> that is
  congruent to \<open>i\<close> modulo \<open>2^61\<close>. The encoding always carries the integer tag.
\<close>

theorem int_encoding_truncates:
  "val_to_int (int_to_val i) = signed_take_bit 60 i
   \<and> sint (val_to_int (int_to_val i)) = (sint i + 2 ^ 60) mod 2 ^ 61 - 2 ^ 60
   \<and> - (2 ^ 60) \<le> sint (val_to_int (int_to_val i))
   \<and> sint (val_to_int (int_to_val i)) < 2 ^ 60
   \<and> (sint (val_to_int (int_to_val i)) - sint i) mod 2 ^ 61 = 0
   \<and> is_int (int_to_val i)"
proof -
  let ?r = "sint (val_to_int (int_to_val i))"
  have s: "?r = signed_take_bit 60 (sint i)"
    by (simp add: val_to_int_int_to_val sint_signed_take_bit_60)
  have c1: "val_to_int (int_to_val i) = signed_take_bit 60 i"
    by (rule val_to_int_int_to_val)
  have c2: "?r = (sint i + 2 ^ 60) mod 2 ^ 61 - 2 ^ 60"
    unfolding s by (simp add: signed_take_bit_eq_take_bit_shift take_bit_eq_mod)
  have c3: "- (2 ^ 60) \<le> ?r" and c4: "?r < 2 ^ 60"
    unfolding s using signed_take_bit_60_range [of "sint i"] by simp_all
  have c5: "(?r - sint i) mod 2 ^ 61 = 0"
    unfolding s by (rule signed_take_bit_60_cong)
  have c6: "is_int (int_to_val i)"
    by (simp add: is_int_def tag_int_to_val)
  from c1 c2 c3 c4 c5 c6 show ?thesis
    by (intro conjI)
qed

section \<open>Properties of the printer\<close>

lemma aligned_handle:
  assumes "p AND TAG_MASK = 0"
  shows "p \<noteq> NULL_VAL" and "\<not> is_int p" and "\<not> is_bool p" and "\<not> is_char p"
    and "is_heap_ptr p"
  using assms
  by (auto simp add: is_int_def is_bool_def is_char_def is_heap_ptr_def
      INT_TAG_def BOOL_TAG_def CHAR_TAG_def NULL_VAL_def TAG_MASK_def)

lemma print_value_heap:
  assumes "p AND TAG_MASK = 0" and "objs m p = Some ob"
  shows "print_value fmt m (Suc n) p =
     (if tag ob = TYPE_DOUBLE_TAG then
        (case payload ob of As_double d \<Rightarrow> Inr (fmt d) | _ \<Rightarrow> Inl Undefined)
      else if tag ob = TYPE_STRING_TAG then
        (case payload ob of
           As_string q \<Rightarrow>
             (case printf_s m q of
                Inl e \<Rightarrow> Inl e
              | Inr s \<Rightarrow> Inr ([CHR 0x22] @ s @ [CHR 0x22]))
         | _ \<Rightarrow> Inl Undefined)
      else if tag ob = TYPE_PAIR_TAG then
        (case payload ob of
           As_pair a b \<Rightarrow>
             (case print_value fmt m n a of
                Inl e \<Rightarrow> Inl e
              | Inr sa \<Rightarrow>
                  (case print_value fmt m n b of
                     Inl e \<Rightarrow> Inl e
                   | Inr sb \<Rightarrow> Inr (''('' @ sa @ '' . '' @ sb @ '')'')))
         | _ \<Rightarrow> Inl Undefined)
      else if tag ob = TYPE_SYMBOL_TAG then
        (case payload ob of
           As_symbol q \<Rightarrow>
             (case printf_s m q of
                Inl e \<Rightarrow> Inl e
              | Inr s \<Rightarrow> Inr ([CHR 0x27] @ s @ [CHR 0x27]))
         | _ \<Rightarrow> Inl Undefined)
      else Inr ''<unknown>'')"
  using aligned_handle [OF assms(1)] assms(2) by (simp add: print_value.simps(2))

lemma print_value_dangling:
  assumes "p AND TAG_MASK = 0" and "objs m p = None"
  shows "print_value fmt m (Suc n) p = Inl Undefined"
  using aligned_handle [OF assms(1)] assms(2) by (simp add: print_value.simps(2))

lemma print_value_immediate:
  assumes "v AND TAG_MASK \<noteq> 0"
  shows "print_value fmt m (Suc n) v = print_value fmt' m' (Suc n') v"
  using assms by (simp add: print_value.simps(2) is_heap_ptr_def)

lemma print_value_pair:
  assumes "p AND TAG_MASK = 0" and "objs m p = Some ob"
    and "tag ob = TYPE_PAIR_TAG" and "payload ob = As_pair a b"
  shows "print_value fmt m (Suc n) p =
     (case print_value fmt m n a of
        Inl e \<Rightarrow> Inl e
      | Inr sa \<Rightarrow>
          (case print_value fmt m n b of
             Inl e \<Rightarrow> Inl e
           | Inr sb \<Rightarrow> Inr (''('' @ sa @ '' . '' @ sb @ '')'')))"
  unfolding print_value_heap [OF assms(1,2)] using assms(3,4)
  by (simp add: TYPE_PAIR_TAG_def TYPE_DOUBLE_TAG_def TYPE_STRING_TAG_def)

lemma print_value_pair_Inr:
  assumes "p AND TAG_MASK = 0" and "objs m p = Some ob"
    and "tag ob = TYPE_PAIR_TAG" and "payload ob = As_pair a b"
    and "print_value fmt m n a = Inr sa" and "print_value fmt m n b = Inr sb"
  shows "print_value fmt m (Suc n) p = Inr (''('' @ sa @ '' . '' @ sb @ '')'')"
  unfolding print_value_pair [OF assms(1-4)] using assms(5,6) by simp

lemma print_value_pair_InrD:
  assumes "p AND TAG_MASK = 0" and "objs m p = Some ob"
    and "tag ob = TYPE_PAIR_TAG" and "payload ob = As_pair a b"
    and "print_value fmt m (Suc n) p = Inr s"
  obtains sa sb where "print_value fmt m n a = Inr sa" and "print_value fmt m n b = Inr sb"
    and "s = ''('' @ sa @ '' . '' @ sb @ '')''"
  using assms(5) unfolding print_value_pair [OF assms(1-4)]
  by (auto split: sum.splits)

text \<open>An object that is not a pair is printed without a nested call.\<close>

lemma print_value_leaf:
  assumes "p AND TAG_MASK = 0" and "objs m p = Some ob" and "objs m' p = Some ob"
    and "bufs m' = bufs m"
    and "\<not> (tag ob = TYPE_PAIR_TAG \<and> (\<exists>a b. payload ob = As_pair a b))"
  shows "print_value fmt m' (Suc n') p = print_value fmt m (Suc n) p"
  unfolding print_value_heap [OF assms(1,2)] print_value_heap [OF assms(1,3)]
  using assms(4,5) by (auto simp add: printf_s_def split: payload.splits)

lemma print_value_fuel_Suc:
  "print_value fmt m n v = Inr s \<Longrightarrow> print_value fmt m (Suc n) v = Inr s"
proof (induction n arbitrary: v s)
  case 0
  then show ?case by (simp add: print_value.simps(1))
next
  case (Suc n)
  show ?case
  proof (cases "v AND TAG_MASK = 0")
    case False
    have "print_value fmt m (Suc (Suc n)) v = print_value fmt m (Suc n) v"
      by (rule print_value_immediate [OF False])
    with Suc.prems show ?thesis by (simp only:)
  next
    case True
    show ?thesis
    proof (cases "objs m v")
      case None
      with True Suc.prems show ?thesis
        by (simp add: print_value_dangling)
    next
      case (Some ob)
      show ?thesis
      proof (cases "tag ob = TYPE_PAIR_TAG \<and> (\<exists>a b. payload ob = As_pair a b)")
        case False
        have "print_value fmt m (Suc (Suc n)) v = print_value fmt m (Suc n) v"
          by (rule print_value_leaf [OF True Some Some refl False])
        with Suc.prems show ?thesis by (simp only:)
      next
        case True
        then obtain a b where t: "tag ob = TYPE_PAIR_TAG" and ab: "payload ob = As_pair a b"
          by blast
        from print_value_pair_InrD [OF \<open>v AND TAG_MASK = 0\<close> Some t ab Suc.prems]
        obtain sa sb where sa: "print_value fmt m n a = Inr sa"
          and sb: "print_value fmt m n b = Inr sb"
          and s: "s = ''('' @ sa @ '' . '' @ sb @ '')''"
          by blast
        from print_value_pair_Inr [OF \<open>v AND TAG_MASK = 0\<close> Some t ab
            Suc.IH [OF sa] Suc.IH [OF sb]] s
        show ?thesis by (simp only:)
      qed
    qed
  qed
qed

lemma print_value_fuel_mono:
  assumes "print_value fmt m n v = Inr s" and "n \<le> k"
  shows "print_value fmt m k v = Inr s"
proof -
  have "print_value fmt m (n + d) v = Inr s" for d
    by (induction d) (simp_all add: assms(1) print_value_fuel_Suc)
  from this [of "k - n"] assms(2) show ?thesis by simp
qed

text \<open>
  Storing an object at an address that held none leaves every text printed before
  as it was.
\<close>

lemma print_value_frame:
  assumes "p \<notin> dom (objs m)"
  shows "print_value fmt m n v = Inr s \<Longrightarrow>
    print_value fmt (m\<lparr>objs := (objs m)(p \<mapsto> ob)\<rparr>) n v = Inr s"
proof (induction n arbitrary: v s)
  case 0
  then show ?case by (simp add: print_value.simps(1))
next
  case (Suc n)
  let ?m' = "m\<lparr>objs := (objs m)(p \<mapsto> ob)\<rparr>"
  show ?case
  proof (cases "v AND TAG_MASK = 0")
    case False
    have "print_value fmt ?m' (Suc n) v = print_value fmt m (Suc n) v"
      by (rule print_value_immediate [OF False])
    with Suc.prems show ?thesis by (simp only:)
  next
    case True
    show ?thesis
    proof (cases "objs m v")
      case None
      with True Suc.prems show ?thesis
        by (simp add: print_value_dangling)
    next
      case (Some o1)
      with assms have "v \<noteq> p" by auto
      with Some have Some': "objs ?m' v = Some o1" by simp
      have bufs: "bufs ?m' = bufs m" by simp
      show ?thesis
      proof (cases "tag o1 = TYPE_PAIR_TAG \<and> (\<exists>a b. payload o1 = As_pair a b)")
        case False
        have "print_value fmt ?m' (Suc n) v = print_value fmt m (Suc n) v"
          by (rule print_value_leaf [OF True Some Some' bufs False])
        with Suc.prems show ?thesis by (simp only:)
      next
        case True
        then obtain a b where t: "tag o1 = TYPE_PAIR_TAG" and ab: "payload o1 = As_pair a b"
          by blast
        from print_value_pair_InrD [OF \<open>v AND TAG_MASK = 0\<close> Some t ab Suc.prems]
        obtain sa sb where sa: "print_value fmt m n a = Inr sa"
          and sb: "print_value fmt m n b = Inr sb"
          and s: "s = ''('' @ sa @ '' . '' @ sb @ '')''"
          by blast
        from print_value_pair_Inr [OF \<open>v AND TAG_MASK = 0\<close> Some' t ab
            Suc.IH [OF sa] Suc.IH [OF sb]] s
        show ?thesis by (simp only:)
      qed
    qed
  qed
qed

lemma c_str_idem: "c_str (c_str s) = c_str s"
  by (simp add: c_str_def)

lemma c_str_no_nul: "CHR 0x00 \<notin> set s \<Longrightarrow> c_str s = s"
  by (auto simp add: c_str_def takeWhile_eq_all_conv)

text \<open>
  C1. The claim asks that the canonical true handle prints as \<open>#t\<close> and the false
  handle as \<open>#f\<close>. On the code \<open>FALSE_VAL\<close> prints as \<open>#f\<close>, but \<open>TRUE_VAL\<close> fails
  \<open>is_bool\<close>, falls through every branch and prints as \<open><badval>\<close>, with any fuel
  and in any memory.
\<close>

theorem print_value_booleans:
  "print_value fmt m (Suc n) TRUE_VAL = Inr ''<badval>''
   \<and> print_value fmt m (Suc n) FALSE_VAL = Inr ''#f''"
  by (simp add: print_value.simps(2) is_int_def is_bool_def is_char_def is_heap_ptr_def
      INT_TAG_def BOOL_TAG_def CHAR_TAG_def NULL_VAL_def TAG_MASK_def
      TRUE_VAL_def FALSE_VAL_def)

theorem print_value_booleans_witness:
  "print_value fmt_none empty_memory (Suc 0) TRUE_VAL = Inr ''<badval>''
   \<and> print_value fmt_none empty_memory (Suc 0) FALSE_VAL = Inr ''#f''"
  using print_value_booleans [of fmt_none empty_memory 0] by simp

text \<open>
  C3, as stated, fails: a heap reference to an object whose tag is none of the four
  defined ones is printed as \<open><unknown>\<close>, by the \<open>default\<close> branch of the switch,
  not as \<open><badval>\<close>. Here the object at address 8 has tag 7.
\<close>

theorem print_value_unknown_tag_counterexample:
  "is_heap_ptr 8
   \<and> objs \<lparr>objs = [8 \<mapsto> \<lparr>tag = 7, payload = As_double 0\<rparr>], bufs = Map.empty\<rparr> 8
       = Some \<lparr>tag = 7, payload = As_double 0\<rparr>
   \<and> (7 :: 8 word) \<notin> {TYPE_DOUBLE_TAG, TYPE_STRING_TAG, TYPE_PAIR_TAG, TYPE_SYMBOL_TAG}
   \<and> print_value fmt_none
         \<lparr>objs = [8 \<mapsto> \<lparr>tag = 7, payload = As_double 0\<rparr>], bufs = Map.empty\<rparr> (Suc 0) 8
       = Inr ''<unknown>''
   \<and> print_value fmt_none
         \<lparr>objs = [8 \<mapsto> \<lparr>tag = 7, payload = As_double 0\<rparr>], bufs = Map.empty\<rparr> (Suc 0) 8
       \<noteq> Inr ''<badval>''"
  by (simp add: print_value.simps(2) is_int_def is_bool_def is_char_def is_heap_ptr_def
      INT_TAG_def BOOL_TAG_def CHAR_TAG_def NULL_VAL_def TAG_MASK_def
      TYPE_DOUBLE_TAG_def TYPE_STRING_TAG_def TYPE_PAIR_TAG_def TYPE_SYMBOL_TAG_def)

text \<open>
  C3, amended. A word whose low three bits are one of the reserved patterns 100, 101
  and 111, other than the null sentinel, is printed as \<open><badval>\<close>; a heap reference
  to an object whose tag is none of the four defined ones is printed as \<open><unknown>\<close>.
\<close>

theorem print_value_invalid:
  "(v AND TAG_MASK \<in> {4, 5, 7} \<and> v \<noteq> NULL_VAL
      \<longrightarrow> print_value fmt m (Suc n) v = Inr ''<badval>'')
   \<and> (is_heap_ptr v \<and> objs m v = Some ob
        \<and> tag ob \<notin> {TYPE_DOUBLE_TAG, TYPE_STRING_TAG, TYPE_PAIR_TAG, TYPE_SYMBOL_TAG}
      \<longrightarrow> print_value fmt m (Suc n) v = Inr ''<unknown>'')"
proof (intro conjI impI)
  assume "v AND TAG_MASK \<in> {4, 5, 7} \<and> v \<noteq> NULL_VAL"
  then show "print_value fmt m (Suc n) v = Inr ''<badval>''"
    by (auto simp add: print_value.simps(2) is_int_def is_bool_def is_char_def
        is_heap_ptr_def INT_TAG_def BOOL_TAG_def CHAR_TAG_def)
next
  assume a: "is_heap_ptr v \<and> objs m v = Some ob
    \<and> tag ob \<notin> {TYPE_DOUBLE_TAG, TYPE_STRING_TAG, TYPE_PAIR_TAG, TYPE_SYMBOL_TAG}"
  then have "v AND TAG_MASK = 0" and "objs m v = Some ob"
    by (simp_all add: is_heap_ptr_def)
  from print_value_heap [OF this] a show "print_value fmt m (Suc n) v = Inr ''<unknown>''"
    by simp
qed

theorem print_value_invalid_witness:
  "(0x1C :: val) AND TAG_MASK \<in> {4, 5, 7} \<and> (0x1C :: val) \<noteq> NULL_VAL
   \<and> print_value fmt_none empty_memory (Suc 0) 0x1C = Inr ''<badval>''
   \<and> is_heap_ptr 16
   \<and> objs \<lparr>objs = [16 \<mapsto> \<lparr>tag = 4, payload = As_pair 0 0\<rparr>], bufs = Map.empty\<rparr> 16
       = Some \<lparr>tag = 4, payload = As_pair 0 0\<rparr>
   \<and> tag \<lparr>tag = 4, payload = As_pair 0 0\<rparr>
       \<notin> {TYPE_DOUBLE_TAG, TYPE_STRING_TAG, TYPE_PAIR_TAG, TYPE_SYMBOL_TAG}
   \<and> print_value fmt_none
         \<lparr>objs = [16 \<mapsto> \<lparr>tag = 4, payload = As_pair 0 0\<rparr>], bufs = Map.empty\<rparr> (Suc 0) 16
       = Inr ''<unknown>''"
  using print_value_invalid [of "0x1C" fmt_none empty_memory 0 "\<lparr>tag = 4, payload = As_pair 0 0\<rparr>"]
    print_value_invalid [of 16 fmt_none
      "\<lparr>objs = [16 \<mapsto> \<lparr>tag = 4, payload = As_pair 0 0\<rparr>], bufs = Map.empty\<rparr>" 0
      "\<lparr>tag = 4, payload = As_pair 0 0\<rparr>"]
  by (simp add: is_heap_ptr_def NULL_VAL_def TAG_MASK_def
      TYPE_DOUBLE_TAG_def TYPE_STRING_TAG_def TYPE_PAIR_TAG_def TYPE_SYMBOL_TAG_def)

lemma cons_Inr:
  assumes "cons p a b m = Inr (v, m')"
  shows "v = p" and "p \<noteq> 0"
    and "m' = m\<lparr>objs := (objs m)(p \<mapsto> \<lparr>tag = TYPE_PAIR_TAG, payload = As_pair a b\<rparr>)\<rparr>"
  using assms by (auto simp add: cons_def split: if_splits)

lemma print_value_NULL_VAL: "print_value fmt m (Suc n) NULL_VAL = Inr ''null''"
  by (simp add: print_value.simps(2))

lemma print_value_int:
  "print_value fmt m (Suc n) (int_to_val i) = Inr (printf_lld (val_to_int (int_to_val i)))"
proof -
  have "int_to_val i AND TAG_MASK \<noteq> NULL_VAL AND TAG_MASK"
    unfolding tag_int_to_val by (simp add: INT_TAG_def NULL_VAL_def TAG_MASK_def)
  then have "int_to_val i \<noteq> NULL_VAL"
    by auto
  then show ?thesis
    by (simp add: print_value.simps(2) is_int_def tag_int_to_val)
qed

lemma sint_decode_encode:
  "sint (val_to_int (int_to_val i)) = signed_take_bit 60 (sint i)"
  by (simp add: val_to_int_int_to_val sint_signed_take_bit_60)

lemma dec_digits_1: "dec_digits (Suc 0) = ''1''"
  by (simp add: dec_digits.simps char_of_def bit_Suc_0_iff)

lemma dec_digits_2: "dec_digits 2 = ''2''"
  by (simp add: dec_digits.simps char_of_def bit_Suc_0_iff)

lemma print_value_int_1: "print_value fmt m (Suc n) (int_to_val 1) = Inr ''1''"
  by (simp add: print_value_int printf_lld_def sint_decode_encode
      signed_take_bit_int_eq_self dec_digits_1 dec_digits_2)

lemma print_value_int_2: "print_value fmt m (Suc n) (int_to_val 2) = Inr ''2''"
  by (simp add: print_value_int printf_lld_def sint_decode_encode
      signed_take_bit_int_eq_self dec_digits_1 dec_digits_2)

text \<open>
  C6. Let \<open>cons\<close> store a pair of \<open>a\<close> and \<open>b\<close> at an aligned address \<open>p\<close> obtained
  from \<open>malloc\<close>. Printing the new handle gives \<open>(\<close>, the text of \<open>a\<close>, \<open> . \<close>, the
  text of \<open>b\<close> and \<open>)\<close>, and fails as the first of the nested calls that fails. When
  \<open>p\<close> was free and \<open>a\<close> and \<open>b\<close> were printed as \<open>sa\<close> and \<open>sb\<close> before the
  call, every fuel above theirs prints the pair as \<open>(sa . sb)\<close>. In particular the
  pair of 1 and the pair of 2 and null, built at two distinct addresses, prints as
  \<open>(1 . (2 . null))\<close>, and null prints as \<open>null\<close>.
\<close>

theorem print_value_cons:
  assumes "cons p a b m = Inr (v, m')" and "p AND TAG_MASK = 0"
  shows
    "print_value fmt m' (Suc n) v =
       (case print_value fmt m' n a of
          Inl e \<Rightarrow> Inl e
        | Inr sa \<Rightarrow>
            (case print_value fmt m' n b of
               Inl e \<Rightarrow> Inl e
             | Inr sb \<Rightarrow> Inr (''('' @ sa @ '' . '' @ sb @ '')'')))
     \<and> (p \<notin> dom (objs m) \<and> print_value fmt m na a = Inr ta
          \<and> print_value fmt m nb b = Inr tb \<and> Suc (max na nb) \<le> k
        \<longrightarrow> print_value fmt m' k v = Inr (''('' @ ta @ '' . '' @ tb @ '')''))
     \<and> (p1 AND TAG_MASK = 0 \<and> p2 AND TAG_MASK = 0 \<and> p1 \<noteq> p2
          \<and> cons p2 (int_to_val 2) NULL_VAL m0 = Inr (v2, m1)
          \<and> cons p1 (int_to_val 1) v2 m1 = Inr (v1, m2)
        \<longrightarrow> print_value fmt m2 (Suc (Suc (Suc j))) v1 = Inr ''(1 . (2 . null))'')
     \<and> print_value fmt m (Suc n) NULL_VAL = Inr ''null''"
proof (intro conjI impI)
  let ?ob = "\<lparr>tag = TYPE_PAIR_TAG, payload = As_pair a b\<rparr>"
  note c = cons_Inr [OF assms(1)]
  have ob: "objs m' p = Some ?ob"
    by (simp add: c(3))
  show "print_value fmt m' (Suc n) v =
       (case print_value fmt m' n a of
          Inl e \<Rightarrow> Inl e
        | Inr sa \<Rightarrow>
            (case print_value fmt m' n b of
               Inl e \<Rightarrow> Inl e
             | Inr sb \<Rightarrow> Inr (''('' @ sa @ '' . '' @ sb @ '')'')))"
    unfolding c(1) by (rule print_value_pair [OF assms(2) ob]) simp_all
  show "print_value fmt m' k v = Inr (''('' @ ta @ '' . '' @ tb @ '')'')"
    if h: "p \<notin> dom (objs m) \<and> print_value fmt m na a = Inr ta
          \<and> print_value fmt m nb b = Inr tb \<and> Suc (max na nb) \<le> k"
  proof -
    let ?n = "max na nb"
    from h have "print_value fmt m ?n a = Inr ta" and "print_value fmt m ?n b = Inr tb"
      by (auto intro: print_value_fuel_mono)
    with h have "print_value fmt m' ?n a = Inr ta" and "print_value fmt m' ?n b = Inr tb"
      unfolding c(3) by (auto intro: print_value_frame)
    from print_value_pair_Inr [OF assms(2) ob _ _ this]
    have "print_value fmt m' (Suc ?n) p = Inr (''('' @ ta @ '' . '' @ tb @ '')'')"
      by simp
    with h show ?thesis
      unfolding c(1) by (auto intro: print_value_fuel_mono)
  qed
  show "print_value fmt m2 (Suc (Suc (Suc j))) v1 = Inr ''(1 . (2 . null))''"
    if h: "p1 AND TAG_MASK = 0 \<and> p2 AND TAG_MASK = 0 \<and> p1 \<noteq> p2
          \<and> cons p2 (int_to_val 2) NULL_VAL m0 = Inr (v2, m1)
          \<and> cons p1 (int_to_val 1) v2 m1 = Inr (v1, m2)"
  proof -
    from h have c2: "cons p2 (int_to_val 2) NULL_VAL m0 = Inr (v2, m1)"
      and c1: "cons p1 (int_to_val 1) v2 m1 = Inr (v1, m2)"
      and a1: "p1 AND TAG_MASK = 0" and a2: "p2 AND TAG_MASK = 0" and ne: "p1 \<noteq> p2"
      by simp_all
    note i = cons_Inr [OF c2] and o = cons_Inr [OF c1]
    have inner: "objs m2 p2 = Some \<lparr>tag = TYPE_PAIR_TAG, payload = As_pair (int_to_val 2) NULL_VAL\<rparr>"
      using ne by (simp add: o(3) i(3))
    have outer: "objs m2 p1 = Some \<lparr>tag = TYPE_PAIR_TAG, payload = As_pair (int_to_val 1) p2\<rparr>"
      by (simp add: o(3) i(1))
    from print_value_pair_Inr [OF a2 inner _ _ print_value_int_2 print_value_NULL_VAL]
    have "print_value fmt m2 (Suc (Suc j)) p2 = Inr ''(2 . null)''"
      by simp
    from print_value_pair_Inr [OF a1 outer _ _ print_value_int_1 this]
    show ?thesis
      by (simp add: o(1))
  qed
  show "print_value fmt m (Suc n) NULL_VAL = Inr ''null''"
    by (rule print_value_NULL_VAL)
qed

theorem print_value_cons_witness:
  "cons 0x1000 (int_to_val 1) 0x1020
       \<lparr>objs = [0x1020 \<mapsto> \<lparr>tag = TYPE_PAIR_TAG, payload = As_pair (int_to_val 2) NULL_VAL\<rparr>],
        bufs = Map.empty\<rparr>
     = Inr (0x1000,
       \<lparr>objs = [0x1020 \<mapsto> \<lparr>tag = TYPE_PAIR_TAG, payload = As_pair (int_to_val 2) NULL_VAL\<rparr>,
                0x1000 \<mapsto> \<lparr>tag = TYPE_PAIR_TAG, payload = As_pair (int_to_val 1) 0x1020\<rparr>],
        bufs = Map.empty\<rparr>)
   \<and> (0x1000 :: val) AND TAG_MASK = 0 \<and> (0x1020 :: val) AND TAG_MASK = 0
   \<and> (0x1000 :: val) \<noteq> 0x1020
   \<and> cons 0x1020 (int_to_val 2) NULL_VAL empty_memory
     = Inr (0x1020,
       \<lparr>objs = [0x1020 \<mapsto> \<lparr>tag = TYPE_PAIR_TAG, payload = As_pair (int_to_val 2) NULL_VAL\<rparr>],
        bufs = Map.empty\<rparr>)
   \<and> (0x1000 :: val) \<notin> dom (objs
       \<lparr>objs = [0x1020 \<mapsto> \<lparr>tag = TYPE_PAIR_TAG, payload = As_pair (int_to_val 2) NULL_VAL\<rparr>],
        bufs = Map.empty\<rparr>)
   \<and> print_value fmt_none
       \<lparr>objs = [0x1020 \<mapsto> \<lparr>tag = TYPE_PAIR_TAG, payload = As_pair (int_to_val 2) NULL_VAL\<rparr>],
        bufs = Map.empty\<rparr> 1 (int_to_val 1) = Inr ''1''
   \<and> print_value fmt_none
       \<lparr>objs = [0x1020 \<mapsto> \<lparr>tag = TYPE_PAIR_TAG, payload = As_pair (int_to_val 2) NULL_VAL\<rparr>],
        bufs = Map.empty\<rparr> 2 0x1020 = Inr ''(2 . null)''
   \<and> Suc (max 1 2) \<le> 3
   \<and> print_value fmt_none
       \<lparr>objs = [0x1020 \<mapsto> \<lparr>tag = TYPE_PAIR_TAG, payload = As_pair (int_to_val 2) NULL_VAL\<rparr>,
                0x1000 \<mapsto> \<lparr>tag = TYPE_PAIR_TAG, payload = As_pair (int_to_val 1) 0x1020\<rparr>],
        bufs = Map.empty\<rparr> 3 0x1000 = Inr ''(1 . (2 . null))''
   \<and> print_value fmt_none empty_memory (Suc 0) NULL_VAL = Inr ''null''"
proof -
  let ?m1 = "\<lparr>objs = [0x1020 \<mapsto> \<lparr>tag = TYPE_PAIR_TAG, payload = As_pair (int_to_val 2) NULL_VAL\<rparr>],
        bufs = Map.empty\<rparr>"
  let ?m2 = "\<lparr>objs = [0x1020 \<mapsto> \<lparr>tag = TYPE_PAIR_TAG, payload = As_pair (int_to_val 2) NULL_VAL\<rparr>,
                0x1000 \<mapsto> \<lparr>tag = TYPE_PAIR_TAG, payload = As_pair (int_to_val 1) 0x1020\<rparr>],
        bufs = Map.empty\<rparr>"
  have c2: "cons 0x1020 (int_to_val 2) NULL_VAL empty_memory = Inr (0x1020, ?m1)"
    by (simp add: cons_def empty_memory_def)
  have c1: "cons 0x1000 (int_to_val 1) 0x1020 ?m1 = Inr (0x1000, ?m2)"
    by (simp add: cons_def)
  have al: "(0x1000 :: val) AND TAG_MASK = 0" "(0x1020 :: val) AND TAG_MASK = 0"
    by (simp_all add: TAG_MASK_def)
  have fresh: "(0x1000 :: val) \<notin> dom (objs ?m1)"
    by simp
  have pa: "print_value fmt_none ?m1 1 (int_to_val 1) = Inr ''1''"
    using print_value_int_1 [of fmt_none ?m1 0] by simp
  have pb: "print_value fmt_none ?m1 2 0x1020 = Inr ''(2 . null)''"
    using print_value_pair_Inr [OF al(2) _ _ _ print_value_int_2 print_value_NULL_VAL,
        of ?m1 "\<lparr>tag = TYPE_PAIR_TAG, payload = As_pair (int_to_val 2) NULL_VAL\<rparr>"
          fmt_none 0]
    by (simp add: numeral_2_eq_2)
  note t = print_value_cons [OF c1 al(1), where fmt = fmt_none and n = 2
      and na = 1 and ta = "''1''" and nb = 2 and tb = "''(2 . null)''" and k = 3
      and ?p1.0 = "0x1000" and ?p2.0 = "0x1020" and ?m0.0 = empty_memory
      and ?v2.0 = "0x1020" and ?m1.0 = ?m1 and ?v1.0 = "0x1000" and ?m2.0 = ?m2 and j = 0]
  from conjunct1 [OF conjunct2 [OF t]] fresh pa pb
  have "print_value fmt_none ?m2 3 0x1000 = Inr ''(1 . (2 . null))''"
    by simp
  with c1 c2 al fresh pa pb show ?thesis
    by (simp add: print_value_NULL_VAL)
qed

lemma box_string_Inr:
  assumes "box_string p q s m = Inr (v, m')"
  shows "v = p" and "p \<noteq> 0"
    and "objs m' p = Some \<lparr>tag = TYPE_STRING_TAG, payload = As_string q\<rparr>"
    and "q \<noteq> 0 \<Longrightarrow> bufs m' q = Some (c_str s)"
  using assms by (auto simp add: box_string_def strdup_def Let_def split: if_splits)

text \<open>
  C7. Let \<open>box_string\<close> store a string object at an aligned address \<open>p\<close> obtained
  from \<open>malloc\<close>, with the copy of the text \<open>s\<close> at the address \<open>q\<close> obtained from
  \<open>strdup\<close>, where \<open>s\<close> is the text of a C string (it holds no NUL). Printing the
  new handle gives a double quote, the characters of \<open>s\<close> as they are, and a double
  quote.
\<close>

theorem print_value_box_string:
  assumes "box_string p q s m = Inr (v, m')" and "p AND TAG_MASK = 0"
    and "q \<noteq> 0" and "CHR 0x00 \<notin> set s"
  shows "print_value fmt m' (Suc n) v = Inr ([CHR 0x22] @ s @ [CHR 0x22])"
proof -
  note b = box_string_Inr [OF assms(1)]
  have "printf_s m' q = Inr s"
    by (simp add: printf_s_def b(4) [OF assms(3)] c_str_idem c_str_no_nul [OF assms(4)])
  then show ?thesis
    unfolding b(1) print_value_heap [OF assms(2) b(3)]
    by (simp add: TYPE_STRING_TAG_def TYPE_DOUBLE_TAG_def)
qed

theorem print_value_box_string_witness:
  "box_string 0x1000 0x2000 [CHR ''a'', CHR 0x22, CHR ''b'', CHR 0x5C, CHR ''c''] empty_memory
     = Inr (0x1000,
        \<lparr>objs = [0x1000 \<mapsto> \<lparr>tag = TYPE_STRING_TAG, payload = As_string 0x2000\<rparr>],
         bufs = [0x2000 \<mapsto> [CHR ''a'', CHR 0x22, CHR ''b'', CHR 0x5C, CHR ''c'']]\<rparr>)
   \<and> (0x1000 :: val) AND TAG_MASK = 0 \<and> (0x2000 :: val) \<noteq> 0
   \<and> CHR 0x00 \<notin> set [CHR ''a'', CHR 0x22, CHR ''b'', CHR 0x5C, CHR ''c'']
   \<and> print_value fmt_none
        \<lparr>objs = [0x1000 \<mapsto> \<lparr>tag = TYPE_STRING_TAG, payload = As_string 0x2000\<rparr>],
         bufs = [0x2000 \<mapsto> [CHR ''a'', CHR 0x22, CHR ''b'', CHR 0x5C, CHR ''c'']]\<rparr>
        (Suc 0) 0x1000
     = Inr [CHR 0x22, CHR ''a'', CHR 0x22, CHR ''b'', CHR 0x5C, CHR ''c'', CHR 0x22]"
proof -
  let ?s = "[CHR ''a'', CHR 0x22, CHR ''b'', CHR 0x5C, CHR ''c'']"
  let ?m' = "\<lparr>objs = [0x1000 \<mapsto> \<lparr>tag = TYPE_STRING_TAG, payload = As_string 0x2000\<rparr>],
         bufs = [0x2000 \<mapsto> ?s]\<rparr>"
  have b: "box_string 0x1000 0x2000 ?s empty_memory = Inr (0x1000, ?m')"
    by (simp add: box_string_def strdup_def c_str_def empty_memory_def)
  have al: "(0x1000 :: val) AND TAG_MASK = 0"
    by (simp add: TAG_MASK_def)
  have q: "(0x2000 :: val) \<noteq> 0"
    by simp
  have nul: "CHR 0x00 \<notin> set ?s"
    by simp
  from print_value_box_string [OF b al q nul, of fmt_none 0] b al q nul
  show ?thesis
    by simp
qed

end
